theory Spec2Isabelle
  imports Complex_Main "HOL-Library.Char_ord" "HOL-Library.List_Lexorder"
begin

section \<open>Python values shared by the agents\<close>

text \<open>
  The agents exchange JSON documents. A parsed document is what \<^verbatim>\<open>json.loads\<close> returns:
  \<^verbatim>\<open>None\<close>, a bool, an int, a float (possibly \<^verbatim>\<open>NaN\<close> or an infinity, which Python's parser
  accepts), a string, a list or a dict. A dict keeps its keys in insertion order and has
  no duplicate key; it is an association list here.
\<close>

datatype pyfloat = Finite rat | NaN | PosInf | NegInf

datatype json =
    JNull
  | JBool bool
  | JInt int
  | JFloat pyfloat
  | JString string
  | JArray "json list"
  | JObject "(string \<times> json) list"

datatype py_error =
    KeyError
  | TypeError
  | ValueError
  | AttributeError
  | IndexError
  | OverflowError
  | FileNotFoundError

text \<open>\<^verbatim>\<open>d[k] = v\<close>: an existing key keeps its position, a new key is appended.\<close>

fun dict_set :: "'k \<Rightarrow> 'v \<Rightarrow> ('k \<times> 'v) list \<Rightarrow> ('k \<times> 'v) list" where
  "dict_set k v [] = [(k, v)]"
| "dict_set k v ((k', v') # d) = (if k' = k then (k, v) # d else (k', v') # dict_set k v d)"

text \<open>\<^verbatim>\<open>d.get(k, default)\<close>.\<close>

definition dict_get :: "(string \<times> json) list \<Rightarrow> string \<Rightarrow> json \<Rightarrow> json" where
  "dict_get d k dflt = (case map_of d k of None \<Rightarrow> dflt | Some v \<Rightarrow> v)"

text \<open>\<^verbatim>\<open>sub in s\<close> on strings.\<close>

fun str_contains :: "string \<Rightarrow> string \<Rightarrow> bool" where
  "str_contains sub [] = (sub = [])"
| "str_contains sub (c # s) = (take (length sub) (c # s) = sub \<or> str_contains sub s)"

section \<open>Aggregator (results\_aggregator.py)\<close>

text \<open>
  \<^verbatim>\<open>VERDICT_MAP.get(verdict["verdict"], 0)\<close>: the three keys of the table are strings;
  any other hashable value falls to the default 0; a list or a dict is unhashable and the
  lookup raises \<^verbatim>\<open>TypeError\<close>.
\<close>

definition VERDICT_MAP :: "(string \<times> int) list" where
  "VERDICT_MAP = [(''supported'', 1), (''contradicted'', 0), (''undetermined'', 0)]"

definition verdict_map_get :: "json \<Rightarrow> py_error + int" where
  "verdict_map_get v =
     (case v of
        JString s \<Rightarrow> Inr (case map_of VERDICT_MAP s of None \<Rightarrow> 0 | Some p \<Rightarrow> p)
      | JArray _ \<Rightarrow> Inl TypeError
      | JObject _ \<Rightarrow> Inl TypeError
      | _ \<Rightarrow> Inr 0)"

record report_row =
  row_id :: json
  row_book_name :: json
  row_character :: json
  row_prediction :: int
  row_verdict :: json
  row_confidence :: json
  row_rationale :: json

text \<open>
  The rationale: \<^verbatim>\<open>reasoning = verdict.get("reasoning", "")\<close>, cut to 197 characters plus
  \<^verbatim>\<open>"..."\<close> when longer than 200. \<^verbatim>\<open>len\<close> raises on a value without a length, and a
  list or dict longer than 200 cannot be sliced and concatenated with a string.
\<close>

definition concise_rationale :: "json \<Rightarrow> py_error + json" where
  "concise_rationale r =
     (case r of
        JString s \<Rightarrow> Inr (if length s > 200 then JString (take 197 s @ ''...'') else r)
      | JArray xs \<Rightarrow> (if length xs > 200 then Inl TypeError else Inr r)
      | JObject d \<Rightarrow> (if length d > 200 then Inl TypeError else Inr r)
      | _ \<Rightarrow> Inl TypeError)"

text \<open>
  A key of the claims dict must be hashable. The claims dict maps a claim id to the claim's
  record (itself a dict).
\<close>

definition hashable :: "json \<Rightarrow> bool" where
  "hashable v = (case v of JArray _ \<Rightarrow> False | JObject _ \<Rightarrow> False | _ \<Rightarrow> True)"

text \<open>The body of the loop over the verdict files (lines 57 to 80).\<close>

definition build_row :: "(json \<rightharpoonup> (string \<times> json) list) \<Rightarrow> json \<Rightarrow> py_error + report_row" where
  "build_row claims verdict =
     (case verdict of
        JObject v \<Rightarrow>
          (case map_of v ''claim_id'' of
             None \<Rightarrow> Inl KeyError
           | Some claim_id \<Rightarrow>
               if \<not> hashable claim_id then Inl TypeError
               else
                 let claim_data = (case claims claim_id of None \<Rightarrow> [] | Some c \<Rightarrow> c) in
                 (case map_of v ''verdict'' of
                    None \<Rightarrow> Inl KeyError
                  | Some vd \<Rightarrow>
                      (case verdict_map_get vd of
                         Inl e \<Rightarrow> Inl e
                       | Inr prediction \<Rightarrow>
                           (case concise_rationale (dict_get v ''reasoning'' (JString '''')) of
                              Inl e \<Rightarrow> Inl e
                            | Inr reasoning \<Rightarrow>
                                Inr \<lparr> row_id = claim_id,
                                      row_book_name = dict_get claim_data ''book_name'' (JString ''''),
                                      row_character = dict_get claim_data ''character'' (JString ''''),
                                      row_prediction = prediction,
                                      row_verdict = vd,
                                      row_confidence = dict_get v ''confidence'' (JInt 0),
                                      row_rationale = reasoning \<rparr>))))
      | _ \<Rightarrow> Inl TypeError)"

fun collect_results ::
  "(json \<rightharpoonup> (string \<times> json) list) \<Rightarrow> json list \<Rightarrow> report_row list \<Rightarrow> py_error + report_row list" where
  "collect_results claims [] results = Inr results"
| "collect_results claims (verdict # rest) results =
     (case build_row claims verdict of
        Inl e \<Rightarrow> Inl e
      | Inr row \<Rightarrow> collect_results claims rest (results @ [row]))"

text \<open>
  The sort key \<^verbatim>\<open>int(x["id"])\<close>. Python's \<^verbatim>\<open>int\<close> on a string (signs, surrounding
  white space, digit separators) is a parameter \<open>int_of_str\<close> that answers \<open>None\<close>
  where Python raises \<^verbatim>\<open>ValueError\<close>; the other cases are written out.
\<close>

definition py_int :: "(string \<Rightarrow> int option) \<Rightarrow> json \<Rightarrow> py_error + int" where
  "py_int int_of_str v =
     (case v of
        JInt i \<Rightarrow> Inr i
      | JBool b \<Rightarrow> Inr (if b then 1 else 0)
      | JFloat (Finite r) \<Rightarrow> Inr (if r < 0 then - \<lfloor>- r\<rfloor> else \<lfloor>r\<rfloor>)
      | JFloat NaN \<Rightarrow> Inl ValueError
      | JFloat _ \<Rightarrow> Inl OverflowError
      | JString s \<Rightarrow> (case int_of_str s of None \<Rightarrow> Inl ValueError | Some i \<Rightarrow> Inr i)
      | _ \<Rightarrow> Inl TypeError)"

text \<open>The keys are computed for all rows, in order, before anything is moved.\<close>

fun int_keys :: "(string \<Rightarrow> int option) \<Rightarrow> report_row list \<Rightarrow> py_error + int list" where
  "int_keys int_of_str [] = Inr []"
| "int_keys int_of_str (r # rs) =
     (case py_int int_of_str (row_id r) of
        Inl e \<Rightarrow> Inl e
      | Inr k \<Rightarrow> (case int_keys int_of_str rs of Inl e \<Rightarrow> Inl e | Inr ks \<Rightarrow> Inr (k # ks)))"

fun str_keys :: "report_row list \<Rightarrow> string list option" where
  "str_keys [] = Some []"
| "str_keys (r # rs) =
     (case row_id r of
        JString s \<Rightarrow> (case str_keys rs of None \<Rightarrow> None | Some ks \<Rightarrow> Some (s # ks))
      | _ \<Rightarrow> None)"

text \<open>
  \<^verbatim>\<open>list.sort\<close> is stable. When a key raises \<^verbatim>\<open>ValueError\<close> the list is left as it was
  and sorted again by the raw id; ids that are all strings compare by code point. The
  fall-back on ids that are not all strings (numbers compare, other mixtures raise) is
  reported as \<^verbatim>\<open>TypeError\<close> here unless there is at most one row.
\<close>

definition sort_results :: "(string \<Rightarrow> int option) \<Rightarrow> report_row list \<Rightarrow> py_error + report_row list" where
  "sort_results int_of_str results =
     (case int_keys int_of_str results of
        Inr ks \<Rightarrow> Inr (map snd (sort_key fst (zip ks results)))
      | Inl ValueError \<Rightarrow>
          (case str_keys results of
             Some ss \<Rightarrow> Inr (map snd (sort_key fst (zip ss results)))
           | None \<Rightarrow> if length results \<le> 1 then Inr results else Inl TypeError)
      | Inl e \<Rightarrow> Inl e)"

text \<open>
  \<^verbatim>\<open>main\<close> up to the rows handed to the CSV writer: \<open>None\<close> is the early return when
  there is no verdict file.
\<close>

definition aggregator_main ::
  "(string \<Rightarrow> int option) \<Rightarrow> (json \<rightharpoonup> (string \<times> json) list) \<Rightarrow> json list
     \<Rightarrow> (py_error + report_row list) option" where
  "aggregator_main int_of_str claims verdict_files =
     (if verdict_files = [] then None
      else Some (case collect_results claims verdict_files [] of
                   Inl e \<Rightarrow> Inl e
                 | Inr results \<Rightarrow> sort_results int_of_str results))"

text \<open>A verdict file as the resolver writes it, and the row it aggregates to.\<close>

definition sample_verdict_file :: "string \<Rightarrow> string \<Rightarrow> json" where
  "sample_verdict_file cid vd =
     JObject [(''claim_id'', JString cid), (''verdict'', JString vd),
              (''confidence'', JFloat (Finite (9 / 10))), (''reasoning'', JString ''ok'')]"

definition sample_row :: "string \<Rightarrow> string \<Rightarrow> int \<Rightarrow> report_row" where
  "sample_row cid vd p =
     \<lparr> row_id = JString cid, row_book_name = JString '''', row_character = JString '''',
       row_prediction = p, row_verdict = JString vd,
       row_confidence = JFloat (Finite (9 / 10)), row_rationale = JString ''ok'' \<rparr>"

definition sample_int_of_str :: "string \<Rightarrow> int option" where
  "sample_int_of_str s = (if s = ''1'' then Some 1 else if s = ''2'' then Some 2
      else if s = ''3'' then Some 3 else None)"

section \<open>Verdict Resolver (reasoning\_agent.py, reasoning\_agent\_local.py)\<close>

subsection \<open>String helpers\<close>

text \<open>
  \<^verbatim>\<open>str.strip()\<close> removes white space at both ends: tab to carriage return, the four
  separators 28 to 31, the space, and (in the Latin-1 range) 133 and 160.
\<close>

definition is_space :: "char \<Rightarrow> bool" where
  "is_space c =
     (let n = (of_char c :: nat)
      in (9 \<le> n \<and> n \<le> 13) \<or> (28 \<le> n \<and> n \<le> 32) \<or> n = 133 \<or> n = 160)"

definition strip :: "string \<Rightarrow> string" where
  "strip s = rev (dropWhile is_space (rev (dropWhile is_space s)))"

definition startswith :: "string \<Rightarrow> string \<Rightarrow> bool" where
  "startswith s p = (take (length p) s = p)"

text \<open>
  \<^verbatim>\<open>s.split(sep)\<close> for a non-empty separator (every separator in the source is a
  literal): \<open>cur\<close> collects the characters of the piece being read.
\<close>

function split_from :: "string \<Rightarrow> string \<Rightarrow> string \<Rightarrow> string list" where
  "split_from sep cur s =
     (if s = [] then [cur]
      else if sep \<noteq> [] \<and> take (length sep) s = sep
           then cur # split_from sep [] (drop (length sep) s)
      else split_from sep (cur @ [hd s]) (tl s))"
  by pat_completeness auto
termination
  by (relation "measure (\<lambda>(sep, cur, s). length s)") auto

definition split :: "string \<Rightarrow> string \<Rightarrow> string list" where
  "split s sep = split_from sep [] s"

text \<open>\<^verbatim>\<open>sep.join(parts)\<close>.\<close>

fun join :: "string \<Rightarrow> string list \<Rightarrow> string" where
  "join sep [] = []"
| "join sep [p] = p"
| "join sep (p # q # ps) = p @ sep @ join sep (q # ps)"

text \<open>\<^verbatim>\<open>str.lower()\<close> on the ASCII letters.\<close>

definition lower_char :: "char \<Rightarrow> char" where
  "lower_char c =
     (let n = (of_char c :: nat) in if 65 \<le> n \<and> n \<le> 90 then char_of (n + 32) else c)"

definition lower :: "string \<Rightarrow> string" where
  "lower s = map lower_char s"

text \<open>\<^verbatim>\<open>str(n)\<close> for an integer.\<close>

function nat_str :: "nat \<Rightarrow> string" where
  "nat_str n =
     (if n < 10 then [char_of (48 + n)] else nat_str (n div 10) @ [char_of (48 + n mod 10)])"
  by pat_completeness auto
termination
  by (relation "measure id") auto

definition int_str :: "int \<Rightarrow> string" where
  "int_str i = (if i < 0 then CHR ''-'' # nat_str (nat (- i)) else nat_str (nat i))"

text \<open>The name Python prints for the type of a parsed JSON value.\<close>

definition type_name :: "json \<Rightarrow> string" where
  "type_name v =
     (case v of
        JNull \<Rightarrow> ''NoneType'' | JBool _ \<Rightarrow> ''bool'' | JInt _ \<Rightarrow> ''int'' | JFloat _ \<Rightarrow> ''float''
      | JString _ \<Rightarrow> ''str'' | JArray _ \<Rightarrow> ''list'' | JObject _ \<Rightarrow> ''dict'')"

text \<open>
  \<^verbatim>\<open>verdict["claim_id"] = claim_id\<close>: only a dict accepts the assignment; on any other
  parsed value Python raises \<^verbatim>\<open>TypeError\<close> with the message on the left.
\<close>

definition set_claim_id :: "string \<Rightarrow> json \<Rightarrow> string + (string \<times> json) list" where
  "set_claim_id claim_id v =
     (case v of
        JObject d \<Rightarrow> Inr (dict_set ''claim_id'' (JString claim_id) d)
      | JArray _ \<Rightarrow> Inl ''list indices must be integers or slices, not str''
      | _ \<Rightarrow> Inl ([CHR 0x27] @ type_name v @ [CHR 0x27] @ '' object does not support item assignment''))"

subsection \<open>Requests and error verdicts\<close>

text \<open>
  The evidence bundle of one claim, as read from \<^verbatim>\<open>evidence/{claim_id}.json\<close>. The prompt
  sent to the backend is built from these fields only.
\<close>

record claim_data =
  cd_claim_id :: string
  cd_claim_text :: string
  cd_evidence :: "json list"

definition create_error_verdict :: "string \<Rightarrow> string \<Rightarrow> json" where
  "create_error_verdict claim_id error_message =
     JObject [(''claim_id'', JString claim_id),
              (''verdict'', JString ''undetermined''),
              (''confidence'', JFloat (Finite 0)),
              (''supporting_spans'', JArray []),
              (''contradicting_spans'', JArray []),
              (''reasoning'', JString error_message)]"

subsection \<open>The hosted backend: \<^verbatim>\<open>call_claude_with_retry\<close>\<close>

text \<open>
  What one \<^verbatim>\<open>client.messages.create\<close> call can do: return a message (the texts of its
  content blocks), or raise. The string of an exception is \<^verbatim>\<open>str(e)\<close>; an
  \<^verbatim>\<open>APIError\<close> may or may not carry a status code.
\<close>

datatype api_outcome =
    Message "string list"
  | RateLimitError string
  | APIConnectionError string
  | APIError "int option" string
  | OtherException string

definition MAX_RETRIES :: nat where
  "MAX_RETRIES = 5"

text \<open>
  Lines 160 to 164: a reply that starts with a code fence loses every line that starts
  with a fence.
\<close>

definition strip_code_fence :: "string \<Rightarrow> string" where
  "strip_code_fence response_text =
     (if startswith response_text ''```''
      then join [CHR 0x0A] (filter (\<lambda>l. \<not> startswith l ''```'') (split response_text [CHR 0x0A]))
      else response_text)"

text \<open>
  The body of the \<^verbatim>\<open>try\<close> once the call has returned (lines 157 to 174) together with
  the handlers that catch what it raises. \<open>loads\<close> stands for \<^verbatim>\<open>json.loads\<close>: it
  answers \<open>Inl (str e)\<close> where Python raises \<^verbatim>\<open>JSONDecodeError\<close>.
\<close>

definition handle_message :: "(string \<Rightarrow> string + json) \<Rightarrow> string \<Rightarrow> string list \<Rightarrow> json" where
  "handle_message loads claim_id content =
     (case content of
        [] \<Rightarrow> create_error_verdict claim_id ''Unexpected error: list index out of range''
      | text # _ \<Rightarrow>
          (case loads (strip_code_fence (strip text)) of
             Inl e \<Rightarrow> create_error_verdict claim_id (''Failed to parse model response: '' @ e)
           | Inr verdict \<Rightarrow>
               (case set_claim_id claim_id verdict of
                  Inl e \<Rightarrow> create_error_verdict claim_id (''Unexpected error: '' @ e)
                | Inr d \<Rightarrow> JObject d)))"

text \<open>
  The retry loop \<^verbatim>\<open>for attempt in range(MAX_RETRIES)\<close>: \<open>n\<close> attempts are left,
  \<open>attempt\<close> is the loop variable, \<open>last_error\<close> is \<^verbatim>\<open>str(last_error)\<close>. The result is
  the verdict and the number of backend calls made. Sleeping between attempts is not
  modelled.
\<close>

fun retry_loop ::
  "(nat \<Rightarrow> api_outcome) \<Rightarrow> (string \<Rightarrow> string + json) \<Rightarrow> string \<Rightarrow> nat \<Rightarrow> nat \<Rightarrow> string
     \<Rightarrow> json \<times> nat" where
  "retry_loop client loads claim_id 0 attempt last_error =
     (create_error_verdict claim_id (''Max retries exceeded: '' @ last_error), 0)"
| "retry_loop client loads claim_id (Suc n) attempt last_error =
     (case client attempt of
        Message content \<Rightarrow> (handle_message loads claim_id content, 1)
      | RateLimitError e \<Rightarrow>
          (let (v, k) = retry_loop client loads claim_id n (attempt + 1) e in (v, k + 1))
      | APIConnectionError e \<Rightarrow>
          (let (v, k) = retry_loop client loads claim_id n (attempt + 1) e in (v, k + 1))
      | APIError status e \<Rightarrow>
          (case status of
             Some code \<Rightarrow>
               if 500 \<le> code \<and> code < 600
               then (let (v, k) = retry_loop client loads claim_id n (attempt + 1) e in (v, k + 1))
               else (create_error_verdict claim_id (''API error: '' @ e), 1)
           | None \<Rightarrow> (create_error_verdict claim_id (''API error: '' @ e), 1))
      | OtherException e \<Rightarrow> (create_error_verdict claim_id (''Unexpected error: '' @ e), 1))"

text \<open>
  \<open>client\<close> gives the outcome of the \<open>attempt\<close>-th call made for this claim;
  \<^verbatim>\<open>last_error\<close> starts as \<^verbatim>\<open>None\<close>.
\<close>

definition call_claude_with_retry ::
  "(nat \<Rightarrow> api_outcome) \<Rightarrow> (string \<Rightarrow> string + json) \<Rightarrow> claim_data \<Rightarrow> json \<times> nat" where
  "call_claude_with_retry client loads cd =
     retry_loop client loads (cd_claim_id cd) MAX_RETRIES 0 ''None''"

subsection \<open>The local backend: \<^verbatim>\<open>call_ollama\<close>\<close>

text \<open>
  What the single \<^verbatim>\<open>requests.post\<close> can do: answer with a status code and a body, or
  raise. The body is what \<^verbatim>\<open>response.json()\<close> gives: a parsed document, or a decoding
  error (which is a \<^verbatim>\<open>json.JSONDecodeError\<close>).
\<close>

datatype http_body = JsonBody json | BadBody string

datatype ollama_outcome =
    HttpResponse int http_body
  | RequestsConnectionError
  | RequestsTimeout
  | OllamaException string

text \<open>
  Lines 127 to 132: the text between the first \<^verbatim>\<open>```json\<close> fence (or else the first
  fence) and the next fence. Indexing the pieces of a split raises \<^verbatim>\<open>IndexError\<close> when
  the piece is not there.
\<close>

definition extract_fenced :: "string \<Rightarrow> py_error + string" where
  "extract_fenced response_text =
     (if str_contains ''```json'' response_text
      then (case split response_text ''```json'' of
              _ # p # _ \<Rightarrow> (case split p ''```'' of q # _ \<Rightarrow> Inr (strip q) | [] \<Rightarrow> Inl IndexError)
            | _ \<Rightarrow> Inl IndexError)
      else if str_contains ''```'' response_text
      then (case split response_text ''```'' of
              _ # p # _ \<Rightarrow> (case split p ''```'' of q # _ \<Rightarrow> Inr (strip q) | [] \<Rightarrow> Inl IndexError)
            | _ \<Rightarrow> Inl IndexError)
      else Inr response_text)"

text \<open>Lines 140 to 148: a key that is absent gets its default; a key that is present is kept.\<close>

definition setdefault :: "string \<Rightarrow> json \<Rightarrow> (string \<times> json) list \<Rightarrow> (string \<times> json) list" where
  "setdefault k v d = (if k \<in> fst ` set d then d else dict_set k v d)"

definition backfill :: "(string \<times> json) list \<Rightarrow> (string \<times> json) list" where
  "backfill verdict =
     setdefault ''reasoning'' (JString ''Local model inference'')
       (setdefault ''confidence'' (JFloat (Finite (1 / 2)))
          (setdefault ''contradicting_spans'' (JArray [])
             (setdefault ''supporting_spans'' (JArray []) verdict)))"

definition no_attribute :: "json \<Rightarrow> string \<Rightarrow> string" where
  "no_attribute v a =
     [CHR 0x27] @ type_name v @ [CHR 0x27] @ '' object has no attribute '' @ [CHR 0x27] @ a @ [CHR 0x27]"

definition call_ollama :: "ollama_outcome \<Rightarrow> (string \<Rightarrow> string + json) \<Rightarrow> claim_data \<Rightarrow> json" where
  "call_ollama post loads cd =
     (let claim_id = cd_claim_id cd in
      case post of
        RequestsConnectionError \<Rightarrow>
          create_error_verdict claim_id ''Ollama not running. Start with: ollama serve''
      | RequestsTimeout \<Rightarrow>
          create_error_verdict claim_id ''Ollama timeout - model may be too slow''
      | OllamaException e \<Rightarrow> create_error_verdict claim_id (''Error: '' @ e)
      | HttpResponse status_code body \<Rightarrow>
          if status_code \<noteq> 200
          then create_error_verdict claim_id (''Ollama error: '' @ int_str status_code)
          else
            (case body of
               BadBody e \<Rightarrow> create_error_verdict claim_id (''JSON parse error: '' @ e)
             | JsonBody result \<Rightarrow>
                 (case result of
                    JObject r \<Rightarrow>
                      (case dict_get r ''response'' (JString '''') of
                         JString t \<Rightarrow>
                           (case extract_fenced (strip t) of
                              Inl _ \<Rightarrow> create_error_verdict claim_id ''Error: list index out of range''
                            | Inr response_text \<Rightarrow>
                                (case loads response_text of
                                   Inl e \<Rightarrow> create_error_verdict claim_id (''JSON parse error: '' @ e)
                                 | Inr verdict \<Rightarrow>
                                     (case set_claim_id claim_id verdict of
                                        Inl e \<Rightarrow> create_error_verdict claim_id (''Error: '' @ e)
                                      | Inr d \<Rightarrow> JObject (backfill d))))
                       | v \<Rightarrow> create_error_verdict claim_id (''Error: '' @ no_attribute v ''strip''))
                  | v \<Rightarrow> create_error_verdict claim_id (''Error: '' @ no_attribute v ''get''))))"

subsection \<open>The stage: \<^verbatim>\<open>main\<close> of both resolvers\<close>

text \<open>
  The state a run works on: the verdict directory (the stem of each \<^verbatim>\<open>*.json\<close> file with
  its parsed content, in listing order) and the log of backend calls issued so far (the
  claim id each call was made for). A verdict is written to the file named after the
  claim id inside the evidence bundle.
\<close>

record resolver_state =
  verdicts :: "(string \<times> json) list"
  calls :: "string list"

definition save_verdict :: "string \<Rightarrow> json \<Rightarrow> resolver_state \<Rightarrow> resolver_state" where
  "save_verdict claim_id verdict st = st\<lparr> verdicts := dict_set claim_id verdict (verdicts st) \<rparr>"

definition log_calls :: "string \<Rightarrow> nat \<Rightarrow> resolver_state \<Rightarrow> resolver_state" where
  "log_calls claim_id k st = st\<lparr> calls := calls st @ replicate k claim_id \<rparr>"

text \<open>
  Lines 280 to 283 of reasoning\_agent.py. The counters are only printed; what matters for
  the run is whether the update raises: \<^verbatim>\<open>.lower()\<close> needs a string, and
  \<^verbatim>\<open>verdict["verdict"]\<close> needs the key and a hashable value.
\<close>

definition update_stats :: "json \<Rightarrow> py_error option" where
  "update_stats verdict =
     (case verdict of
        JObject d \<Rightarrow>
          (case dict_get d ''reasoning'' (JString '''') of
             JString r \<Rightarrow>
               if str_contains ''error'' (lower r) \<or> str_contains ''retries'' (lower r) then None
               else (case map_of d ''verdict'' of
                       None \<Rightarrow> Some KeyError
                     | Some v \<Rightarrow> if hashable v then None else Some TypeError)
           | _ \<Rightarrow> Some AttributeError)
      | _ \<Rightarrow> Some AttributeError)"

text \<open>
  The progress line prints \<^verbatim>\<open>verdict['verdict']\<close> and formats
  \<^verbatim>\<open>verdict.get('confidence', 0)\<close> with \<^verbatim>\<open>:.2f\<close>, which numbers accept.
\<close>

definition progress_line :: "json \<Rightarrow> py_error option" where
  "progress_line verdict =
     (case verdict of
        JObject d \<Rightarrow>
          (case map_of d ''verdict'' of
             None \<Rightarrow> Some KeyError
           | Some _ \<Rightarrow>
               (case dict_get d ''confidence'' (JInt 0) of
                  JInt _ \<Rightarrow> None | JFloat _ \<Rightarrow> None | JBool _ \<Rightarrow> None
                | JString _ \<Rightarrow> Some ValueError
                | _ \<Rightarrow> Some TypeError))
      | _ \<Rightarrow> Some TypeError)"

text \<open>
  The loop over \<^verbatim>\<open>remaining\<close> (lines 272 to 297): \<open>n\<close> is \<^verbatim>\<open>len(remaining)\<close> and
  \<open>i\<close> the index of the file at the head. \<open>client\<close> answers for a claim and an attempt.
  An exception ends the run with the state reached.
\<close>

fun process_remaining ::
  "(claim_data \<Rightarrow> nat \<Rightarrow> api_outcome) \<Rightarrow> (string \<Rightarrow> string + json) \<Rightarrow> nat \<Rightarrow> nat
     \<Rightarrow> (string \<times> claim_data) list \<Rightarrow> resolver_state \<Rightarrow> py_error option \<times> resolver_state" where
  "process_remaining client loads n i [] st = (None, st)"
| "process_remaining client loads n i ((stem, cd) # rest) st =
     (let (verdict, k) = call_claude_with_retry (client cd) loads cd;
          st1 = log_calls (cd_claim_id cd) k st
      in case update_stats verdict of
           Some e \<Rightarrow> (Some e, st1)
         | None \<Rightarrow>
             (let st2 = save_verdict (cd_claim_id cd) verdict st1
              in if ((i + 1) mod 10 = 0 \<or> i + 1 = n) \<and> progress_line verdict \<noteq> None
                 then (progress_line verdict, st2)
                 else process_remaining client loads n (i + 1) rest st2))"

text \<open>
  The final summary reads every verdict file back and looks at \<^verbatim>\<open>v["verdict"]\<close>.
\<close>

fun summary :: "(string \<times> json) list \<Rightarrow> py_error option" where
  "summary [] = None"
| "summary ((stem, v) # rest) =
     (case v of
        JObject d \<Rightarrow> (case map_of d ''verdict'' of None \<Rightarrow> Some KeyError | Some _ \<Rightarrow> summary rest)
      | _ \<Rightarrow> Some TypeError)"

text \<open>
  \<^verbatim>\<open>main\<close> of reasoning\_agent.py: \<open>api_key\<close> says whether the key is set,
  \<open>evidence_files\<close> is the listing of the evidence directory (stem and parsed content).
\<close>

definition reasoning_main ::
  "bool \<Rightarrow> (claim_data \<Rightarrow> nat \<Rightarrow> api_outcome) \<Rightarrow> (string \<Rightarrow> string + json)
     \<Rightarrow> (string \<times> claim_data) list \<Rightarrow> resolver_state \<Rightarrow> py_error option \<times> resolver_state" where
  "reasoning_main api_key client loads evidence_files st =
     (if \<not> api_key then (None, st)
      else if evidence_files = [] then (None, st)
      else
        let processed = fst ` set (verdicts st);
            remaining = filter (\<lambda>f. fst f \<notin> processed) evidence_files
        in case process_remaining client loads (length remaining) 0 remaining st of
             (Some e, st') \<Rightarrow> (Some e, st')
           | (None, st') \<Rightarrow> (summary (verdicts st'), st'))"

text \<open>
  The same for reasoning\_agent\_local.py. The counter update of line 264 is
  \<^verbatim>\<open>stats[verdict.get("verdict", "undetermined")] += 1\<close> on a table with exactly the
  three verdict keys; the progress line is printed every fifth claim and at the end.
\<close>

definition update_stats_local :: "json \<Rightarrow> py_error option" where
  "update_stats_local verdict =
     (case verdict of
        JObject d \<Rightarrow>
          (case dict_get d ''verdict'' (JString ''undetermined'') of
             JString s \<Rightarrow>
               if s = ''supported'' \<or> s = ''contradicted'' \<or> s = ''undetermined'' then None
               else Some KeyError
           | v \<Rightarrow> if hashable v then Some KeyError else Some TypeError)
      | _ \<Rightarrow> Some AttributeError)"

fun process_remaining_local ::
  "(claim_data \<Rightarrow> ollama_outcome) \<Rightarrow> (string \<Rightarrow> string + json) \<Rightarrow> nat \<Rightarrow> nat
     \<Rightarrow> (string \<times> claim_data) list \<Rightarrow> resolver_state \<Rightarrow> py_error option \<times> resolver_state" where
  "process_remaining_local post loads n i [] st = (None, st)"
| "process_remaining_local post loads n i ((stem, cd) # rest) st =
     (let verdict = call_ollama (post cd) loads cd;
          st1 = log_calls (cd_claim_id cd) 1 st
      in case update_stats_local verdict of
           Some e \<Rightarrow> (Some e, st1)
         | None \<Rightarrow>
             (let st2 = save_verdict (cd_claim_id cd) verdict st1
              in if ((i + 1) mod 5 = 0 \<or> i + 1 = n) \<and> progress_line verdict \<noteq> None
                 then (progress_line verdict, st2)
                 else process_remaining_local post loads n (i + 1) rest st2))"

definition local_main ::
  "bool \<Rightarrow> (claim_data \<Rightarrow> ollama_outcome) \<Rightarrow> (string \<Rightarrow> string + json)
     \<Rightarrow> (string \<times> claim_data) list \<Rightarrow> resolver_state \<Rightarrow> py_error option \<times> resolver_state" where
  "local_main ollama_ok post loads evidence_files st =
     (if \<not> ollama_ok then (None, st)
      else if evidence_files = [] then (None, st)
      else
        let processed = fst ` set (verdicts st);
            remaining = filter (\<lambda>f. fst f \<notin> processed) evidence_files
        in process_remaining_local post loads (length remaining) 0 remaining st)"

subsection \<open>Reading a verdict record\<close>

text \<open>\<^verbatim>\<open>verdict.get(k)\<close> on the record a resolver returns.\<close>

definition field :: "json \<Rightarrow> string \<Rightarrow> json option" where
  "field v k = (case v of JObject d \<Rightarrow> map_of d k | _ \<Rightarrow> None)"





subsection \<open>Sample replies\<close>

text \<open>
  Four replies a backend can send, and \<^verbatim>\<open>json.loads\<close> on them: the table gives Python's
  result for each of the four texts (the message of the decoding error is Python's for a
  text that starts with a letter). Texts outside the table are not used.
\<close>

definition reply_maybe :: string where
  \<open>reply_maybe = ''{"verdict": "maybe", "confidence": 7}''\<close>

definition reply_bare :: string where
  \<open>reply_bare = ''{"verdict": "supported"}''\<close>

definition reply_wrong_id :: string where
  \<open>reply_wrong_id = ''{"claim_id": "wrong_id", "verdict": "supported", "confidence": 1}''\<close>


definition sample_loads :: "string \<Rightarrow> string + json" where
  "sample_loads s =
     (if s = reply_maybe
      then Inr (JObject [(''verdict'', JString ''maybe''), (''confidence'', JInt 7)])
      else if s = reply_bare
      then Inr (JObject [(''verdict'', JString ''supported'')])
      else if s = reply_wrong_id
      then Inr (JObject [(''claim_id'', JString ''wrong_id''), (''verdict'', JString ''supported''),
                         (''confidence'', JInt 1)])
      else Inl ''Expecting value: line 1 column 1 (char 0)'')"

definition sample_claim :: "string \<Rightarrow> claim_data" where
  "sample_claim cid =
     \<lparr> cd_claim_id = cid, cd_claim_text = ''Edmond Dantes was imprisoned for fourteen years.'',
       cd_evidence = [] \<rparr>"

text \<open>A backend that answers every call with the same text.\<close>

definition constant_client :: "string \<Rightarrow> nat \<Rightarrow> api_outcome" where
  "constant_client reply attempt = Message [reply]"


definition ollama_reply :: "string \<Rightarrow> ollama_outcome" where
  "ollama_reply reply = HttpResponse 200 (JsonBody (JObject [(''response'', JString reply)]))"

subsection \<open>Sample runs\<close>

text \<open>Two evidence bundles as the retriever writes them, in files named after the claim id.\<close>

definition sample_evidence_files :: "(string \<times> claim_data) list" where
  "sample_evidence_files = [(''1'', sample_claim ''1''), (''2'', sample_claim ''2'')]"

text \<open>The hosted backend is down for claim 1 and answers claim 2.\<close>

definition outage_client :: "claim_data \<Rightarrow> nat \<Rightarrow> api_outcome" where
  "outage_client cd attempt =
     (if cd_claim_id cd = ''1'' then APIConnectionError ''Connection error.''
      else Message [reply_wrong_id])"

definition healthy_client :: "claim_data \<Rightarrow> nat \<Rightarrow> api_outcome" where
  "healthy_client cd attempt = Message [reply_wrong_id]"

definition healthy_post :: "claim_data \<Rightarrow> ollama_outcome" where
  "healthy_post cd = ollama_reply reply_wrong_id"

definition empty_state :: resolver_state where
  "empty_state = \<lparr> verdicts = [], calls = [] \<rparr>"

text \<open>The state the first run with the backend down for claim 1 leaves behind.\<close>

definition after_outage :: resolver_state where
  "after_outage =
     \<lparr> verdicts =
         [(''1'', create_error_verdict ''1'' ''Max retries exceeded: Connection error.''),
          (''2'', JObject [(''claim_id'', JString ''2''), (''verdict'', JString ''supported''),
                           (''confidence'', JInt 1)])],
       calls = [''1'', ''1'', ''1'', ''1'', ''1'', ''2''] \<rparr>"

section \<open>Evidence Retriever (retriever\_agent.py)\<close>

definition TOP_K :: nat where
  "TOP_K = 6"

definition FINAL_K :: nat where
  "FINAL_K = 3"

text \<open>A claim of \<^verbatim>\<open>claims.jsonl\<close> and an entry of the metadata list stored beside the index.\<close>

record claim =
  claim_id :: string
  book_name :: string
  character :: string
  claim_text :: string

record chunk_meta =
  meta_chunk_idx :: int
  meta_book :: string
  meta_char_start :: int
  meta_char_end :: int
  meta_text :: string

text \<open>
  An evidence entry. Scores are floats; the model keeps their type \<open>'s\<close> open and asks
  only that scores are linearly ordered, as the floats a search returns are.
\<close>

record 's evidence =
  ev_chunk_idx :: int
  ev_book :: string
  ev_char_start :: int
  ev_char_end :: int
  ev_text :: string
  ev_score :: 's
  ev_is_same_book :: bool

text \<open>
  \<^verbatim>\<open>xs[i]\<close> on a list: a negative index counts from the end, an index out of range raises.
\<close>

definition py_index :: "'a list \<Rightarrow> int \<Rightarrow> py_error + 'a" where
  "py_index xs i =
     (if 0 \<le> i \<and> i < int (length xs) then Inr (xs ! nat i)
      else if i < 0 \<and> - int (length xs) \<le> i then Inr (xs ! nat (int (length xs) + i))
      else Inl IndexError)"

text \<open>\<^verbatim>\<open>name.lower().replace(" ", "").replace("_", "")\<close>.\<close>

definition normalize_book :: "string \<Rightarrow> string" where
  "normalize_book name = filter (\<lambda>c. c \<noteq> CHR '' '' \<and> c \<noteq> CHR ''_'') (lower name)"

text \<open>
  The body of the loop over the search hits (lines 72 to 88) for a hit that is not the
  sentinel. \<open>boost\<close> is the float addition \<^verbatim>\<open>score + 0.2\<close>; adding 0 leaves the score as
  it is.
\<close>

definition make_evidence :: "('s \<Rightarrow> 's) \<Rightarrow> string \<Rightarrow> chunk_meta \<Rightarrow> 's \<Rightarrow> 's evidence" where
  "make_evidence boost book_name_lower meta score =
     (let meta_book_lower = normalize_book (meta_book meta);
          is_same_book = (str_contains book_name_lower meta_book_lower
                          \<or> str_contains meta_book_lower book_name_lower);
          adjusted_score = (if is_same_book then boost score else score)
      in \<lparr> ev_chunk_idx = meta_chunk_idx meta,
           ev_book = meta_book meta,
           ev_char_start = meta_char_start meta,
           ev_char_end = meta_char_end meta,
           ev_text = meta_text meta,
           ev_score = adjusted_score,
           ev_is_same_book = is_same_book \<rparr>)"

text \<open>
  The loop \<^verbatim>\<open>for score, idx in zip(scores[0], indices[0])\<close>: the sentinel position
  \<open>-1\<close> is skipped, any other position is looked up in the metadata.
\<close>

fun build_results ::
  "('s \<Rightarrow> 's) \<Rightarrow> string \<Rightarrow> chunk_meta list \<Rightarrow> ('s \<times> int) list \<Rightarrow> py_error + 's evidence list" where
  "build_results boost book_name_lower metadata [] = Inr []"
| "build_results boost book_name_lower metadata ((score, idx) # hits) =
     (if idx = - 1 then build_results boost book_name_lower metadata hits
      else case py_index metadata idx of
             Inl e \<Rightarrow> Inl e
           | Inr meta \<Rightarrow>
               (case build_results boost book_name_lower metadata hits of
                  Inl e \<Rightarrow> Inl e
                | Inr results \<Rightarrow> Inr (make_evidence boost book_name_lower meta score # results)))"

text \<open>
  \<^verbatim>\<open>results.sort(key=..., reverse=True)\<close>: Python's sort is stable, also with
  \<^verbatim>\<open>reverse=True\<close>: elements with equal keys keep their order. The model is the stable
  insertion sort into non-increasing order.
\<close>

fun insort_desc :: "('a \<Rightarrow> 'k::linorder) \<Rightarrow> 'a \<Rightarrow> 'a list \<Rightarrow> 'a list" where
  "insort_desc key x [] = [x]"
| "insort_desc key x (y # ys) =
     (if key x \<ge> key y then x # y # ys else y # insort_desc key x ys)"

definition sort_desc :: "('a \<Rightarrow> 'k::linorder) \<Rightarrow> 'a list \<Rightarrow> 'a list" where
  "sort_desc key xs = foldr (insort_desc key) xs []"

text \<open>
  \<^verbatim>\<open>retrieve_evidence\<close>. \<open>search\<close> stands for embedding the query text, normalising it
  and searching the index for the given number of neighbours: it answers the scores and
  positions of the hits, paired, in the order the index returns them.
\<close>

definition retrieve_evidence ::
  "('s::linorder \<Rightarrow> 's) \<Rightarrow> claim \<Rightarrow> (string \<Rightarrow> nat \<Rightarrow> ('s \<times> int) list) \<Rightarrow> chunk_meta list
     \<Rightarrow> py_error + 's evidence list" where
  "retrieve_evidence boost c search metadata =
     (let query_text = character c @ '': '' @ claim_text c;
          hits = search query_text (TOP_K * 2);
          book_name_lower = normalize_book (book_name c)
      in case build_results boost book_name_lower metadata hits of
           Inl e \<Rightarrow> Inl e
         | Inr results \<Rightarrow> Inr (take FINAL_K (sort_desc ev_score results)))"




subsection \<open>The stage: \<^verbatim>\<open>main\<close>\<close>

text \<open>
  The loaded index: the number of vectors it holds and its search. The files the stage
  reads: \<open>None\<close> is a file that does not exist.
\<close>

record 's faiss_index =
  ntotal :: nat
  index_search :: "string \<Rightarrow> nat \<Rightarrow> ('s \<times> int) list"

record 's retriever_files =
  claims_file :: "claim list option"
  faiss_index_file :: "'s faiss_index option"
  meta_file :: "chunk_meta list option"

record 's evidence_bundle =
  bundle_claim_id :: string
  bundle_book_name :: string
  bundle_character :: string
  bundle_claim_text :: string
  bundle_evidence :: "'s evidence list"

text \<open>
  How a stage ends: it runs to its end, it prints an error and returns, or an exception
  leaves it.
\<close>

datatype stage_exit = Completed | Reported string | Raised py_error

text \<open>
  The loop over the claims (lines 125 to 141): the evidence directory is the list of the
  bundles written, by file stem.
\<close>

fun retrieve_all ::
  "('s::linorder \<Rightarrow> 's) \<Rightarrow> 's faiss_index \<Rightarrow> chunk_meta list \<Rightarrow> claim list
     \<Rightarrow> (string \<times> 's evidence_bundle) list \<Rightarrow> stage_exit \<times> (string \<times> 's evidence_bundle) list" where
  "retrieve_all boost index metadata [] written = (Completed, written)"
| "retrieve_all boost index metadata (c # claims) written =
     (case retrieve_evidence boost c (index_search index) metadata of
        Inl e \<Rightarrow> (Raised e, written)
      | Inr evidence \<Rightarrow>
          retrieve_all boost index metadata claims
            (dict_set (claim_id c)
               \<lparr> bundle_claim_id = claim_id c, bundle_book_name = book_name c,
                 bundle_character = character c, bundle_claim_text = claim_text c,
                 bundle_evidence = evidence \<rparr> written))"

text \<open>
  \<^verbatim>\<open>main\<close>: the two existence checks of lines 102 to 107, then
  \<^verbatim>\<open>load_index_and_metadata\<close>, whose \<^verbatim>\<open>open(META_FILE)\<close> raises when the file is not
  there, then the loop. \<^verbatim>\<open>index.ntotal\<close> is printed and not used otherwise.
\<close>

definition retriever_main ::
  "('s::linorder \<Rightarrow> 's) \<Rightarrow> 's retriever_files \<Rightarrow> stage_exit \<times> (string \<times> 's evidence_bundle) list" where
  "retriever_main boost files =
     (case claims_file files of
        None \<Rightarrow> (Reported ''ERROR: claims/claims.jsonl not found. Run claim_parser.py first.'', [])
      | Some claims \<Rightarrow>
          (case faiss_index_file files of
             None \<Rightarrow> (Reported ''ERROR: index/faiss.index not found. Run embedding_agent.py first.'', [])
           | Some index \<Rightarrow>
               (case meta_file files of
                  None \<Rightarrow> (Raised FileNotFoundError, [])
                | Some metadata \<Rightarrow> retrieve_all boost index metadata claims [])))"

subsection \<open>Sample index\<close>

text \<open>
  Three chunks, one from another book, and the search of an index that holds their three
  vectors. An inner-product index answers exactly as many hits as were asked for, best
  score first; when it holds fewer vectors, the rest are sentinels: position \<open>-1\<close> with
  the lowest score there is. Scores are rationals here and the boost adds one fifth.
\<close>

definition sample_metadata :: "chunk_meta list" where
  "sample_metadata =
     [\<lparr> meta_chunk_idx = 0, meta_book = ''In Search of the Castaways'', meta_char_start = 0,
        meta_char_end = 20, meta_text = ''The yacht set sail.'' \<rparr>,
      \<lparr> meta_chunk_idx = 0, meta_book = ''The Count of Monte Cristo'', meta_char_start = 0,
        meta_char_end = 40, meta_text = ''wrongfully imprisoned for fourteen years'' \<rparr>,
      \<lparr> meta_chunk_idx = 1, meta_book = ''The Count of Monte Cristo'', meta_char_start = 30,
        meta_char_end = 60, meta_text = ''He escaped from the Chateau.'' \<rparr>]"

definition lowest_score :: rat where
  "lowest_score = - 340282346638528859811704183484516925440"

definition sample_search :: "string \<Rightarrow> nat \<Rightarrow> (rat \<times> int) list" where
  "sample_search query k =
     take k ([(7 / 10, 0), (1 / 2, 1), (1 / 2, 2)] @ replicate (k - 3) (lowest_score, - 1))"

definition sample_boost :: "rat \<Rightarrow> rat" where
  "sample_boost score = score + 1 / 5"

definition dantes_claim :: claim where
  "dantes_claim =
     \<lparr> claim_id = ''1'', book_name = ''the_count_of_monte_cristo'', character = ''Edmond Dantes'',
       claim_text = ''Edmond Dantes was imprisoned for fourteen years.'' \<rparr>"

text \<open>
  The index of these three vectors stored beside a metadata list of four entries: the
  metadata of another build.
\<close>

definition mismatched_files :: "rat retriever_files" where
  "mismatched_files =
     \<lparr> claims_file = Some [dantes_claim],
       faiss_index_file = Some \<lparr> ntotal = 3, index_search = sample_search \<rparr>,
       meta_file = Some (sample_metadata @
         [\<lparr> meta_chunk_idx = 2, meta_book = ''The Count of Monte Cristo'', meta_char_start = 50,
            meta_char_end = 80, meta_text = ''He found the treasure.'' \<rparr>]) \<rparr>"

definition files_without_metadata :: "rat retriever_files" where
  "files_without_metadata = mismatched_files \<lparr> meta_file := None \<rparr>"

definition files_without_index :: "rat retriever_files" where
  "files_without_index = mismatched_files \<lparr> faiss_index_file := None \<rparr>"

section \<open>Segmenter (ingestion\_agent.py)\<close>

text \<open>
  The tokenizer handed to \<^verbatim>\<open>chunk_text\<close>: any object with \<^verbatim>\<open>encode\<close> and
  \<^verbatim>\<open>decode\<close>. Tokens are non-negative integers.
\<close>

record encoding =
  encode :: "string \<Rightarrow> nat list"
  decode :: "nat list \<Rightarrow> string"

record chunk =
  chunk_idx :: nat
  char_start :: int
  char_end :: int
  chunk_content :: string
  token_count :: nat

text \<open>
  \<^verbatim>\<open>xs[i:j]\<close>: a negative bound counts from the end, and bounds are clipped to the list.
\<close>

definition py_slice :: "'a list \<Rightarrow> int \<Rightarrow> int \<Rightarrow> 'a list" where
  "py_slice xs i j =
     (let n = int (length xs);
          lo = (if i < 0 then max 0 (n + i) else min i n);
          hi = (if j < 0 then max 0 (n + j) else min j n)
      in take (nat (hi - lo)) (drop (nat lo) xs))"

text \<open>
  \<^verbatim>\<open>s.find(sub, start)\<close> for \<open>start \<ge> 0\<close>: the lowest position at or after \<open>start\<close>
  where \<open>sub\<close> occurs, or \<open>-1\<close>. \<open>find_at\<close> walks the rest of the string, \<open>pos\<close>
  being the position of its head.
\<close>

fun find_at :: "string \<Rightarrow> string \<Rightarrow> nat \<Rightarrow> int" where
  "find_at sub [] pos = (if sub = [] then int pos else - 1)"
| "find_at sub (c # s) pos =
     (if take (length sub) (c # s) = sub then int pos else find_at sub s (pos + 1))"

definition py_find :: "string \<Rightarrow> string \<Rightarrow> nat \<Rightarrow> int" where
  "py_find s sub start = (if start > length s then - 1 else find_at sub (drop start s) start)"

text \<open>
  Lines 50 to 57: where a chunk that is not the first is taken to start. \<open>prev_char_end\<close>
  is \<^verbatim>\<open>chunks[-1]["char_end"]\<close>.
\<close>

definition locate_chunk ::
  "encoding \<Rightarrow> string \<Rightarrow> nat list \<Rightarrow> int \<Rightarrow> int \<Rightarrow> int \<Rightarrow> string \<Rightarrow> int" where
  "locate_chunk enc source tokens overlap token_idx prev_char_end chunk_str =
     (let overlap_tokens = py_slice tokens (max 0 (token_idx - overlap)) token_idx;
          overlap_text = decode enc overlap_tokens;
          search_start = prev_char_end - int (length overlap_text) - 100;
          found = py_find source (take 100 chunk_str) (nat (max 0 search_start))
      in if found = - 1 then prev_char_end else found)"

text \<open>
  The \<^verbatim>\<open>while\<close> loop of \<^verbatim>\<open>chunk_text\<close>. It need not end (a window no larger than the
  overlap never advances): not returning is the value \<open>None\<close>. When \<open>idx\<close> is not 0 the
  list \<open>chunks\<close> holds \<open>idx\<close> chunks, so its last element is there.
\<close>

partial_function (option) chunk_loop ::
  "encoding \<Rightarrow> string \<Rightarrow> nat list \<Rightarrow> int \<Rightarrow> int \<Rightarrow> int \<Rightarrow> nat \<Rightarrow> chunk list \<Rightarrow> chunk list option" where
  "chunk_loop enc source tokens chunk_size overlap token_idx idx chunks =
     (if token_idx < int (length tokens)
      then
        (let end_idx = min (token_idx + chunk_size) (int (length tokens));
             chunk_tokens = py_slice tokens token_idx end_idx;
             chunk_str = decode enc chunk_tokens;
             start = (if idx = 0 then 0
                      else locate_chunk enc source tokens overlap token_idx
                             (char_end (last chunks)) chunk_str);
             chunks' = chunks @ [\<lparr> chunk_idx = idx, char_start = start,
                                   char_end = start + int (length chunk_str),
                                   chunk_content = chunk_str,
                                   token_count = length chunk_tokens \<rparr>]
         in if end_idx \<ge> int (length tokens) then Some chunks'
            else chunk_loop enc source tokens chunk_size overlap
                   (token_idx + (chunk_size - overlap)) (idx + 1) chunks')
      else Some chunks)"

declare chunk_loop.simps [code]

definition chunk_text :: "string \<Rightarrow> encoding \<Rightarrow> int \<Rightarrow> int \<Rightarrow> chunk list option" where
  "chunk_text source enc chunk_size overlap =
     chunk_loop enc source (encode enc source) chunk_size overlap 0 0 []"

text \<open>
  The cleaning of \<^verbatim>\<open>process_novel\<close>, \<^verbatim>\<open>" ".join(text.split())\<close>: the words of the text
  (maximal runs without white space) joined by single spaces.
\<close>

fun words_from :: "string \<Rightarrow> string \<Rightarrow> string list" where
  "words_from cur [] = (if cur = [] then [] else [cur])"
| "words_from cur (c # s) =
     (if is_space c then (if cur = [] then words_from [] s else cur # words_from [] s)
      else words_from (cur @ [c]) s)"

definition clean_text :: "string \<Rightarrow> string" where
  "clean_text raw = join '' '' (words_from [] raw)"


text \<open>
  What the coverage claim asks: every position of the text lies in the range
  \<open>[char_start, char_end)\<close> of some chunk.
\<close>

definition covered :: "chunk list \<Rightarrow> nat \<Rightarrow> bool" where
  "covered chunks p = list_ex (\<lambda>c. char_start c \<le> int p \<and> int p < char_end c) chunks"

definition covers :: "chunk list \<Rightarrow> string \<Rightarrow> bool" where
  "covers chunks source = list_all (covered chunks) [0..<length source]"


subsection \<open>Sample tokenizer\<close>

text \<open>A tokenizer with one token per character.\<close>

definition char_encoding :: encoding where
  "char_encoding = \<lparr> encode = map of_char, decode = map char_of \<rparr>"

section \<open>Aggregator: verdict to prediction\<close>

lemma build_row_prediction:
  assumes "build_row claims verdict = Inr row"
  shows "verdict_map_get (row_verdict row) = Inr (row_prediction row)"
  using assms
  by (auto simp: build_row_def Let_def split: json.splits option.splits sum.splits if_splits)

lemma collect_results_prediction:
  assumes "collect_results claims vs acc = Inr rows"
    and "\<forall>r \<in> set acc. verdict_map_get (row_verdict r) = Inr (row_prediction r)"
  shows "\<forall>r \<in> set rows. verdict_map_get (row_verdict r) = Inr (row_prediction r)"
  using assms
proof (induction vs arbitrary: acc)
  case Nil
  then show ?case by simp
next
  case (Cons v vs)
  from Cons.prems(1) obtain row where row: "build_row claims v = Inr row"
    and rest: "collect_results claims vs (acc @ [row]) = Inr rows"
    by (auto split: sum.splits)
  have "\<forall>r \<in> set (acc @ [row]). verdict_map_get (row_verdict r) = Inr (row_prediction r)"
    using Cons.prems(2) build_row_prediction[OF row] by auto
  from Cons.IH[OF rest this] show ?case .
qed

lemma set_sorted_zip:
  assumes "length ks = length rs"
  shows "set (map snd (sort_key fst (zip ks rs))) = set rs"
proof -
  have "set (map snd (sort_key fst (zip ks rs))) = snd ` set (zip ks rs)"
    by simp
  also have "\<dots> = set (map snd (zip ks rs))" by simp
  also have "\<dots> = set rs" using assms by simp
  finally show ?thesis .
qed

lemma int_keys_length: "int_keys f rs = Inr ks \<Longrightarrow> length ks = length rs"
  by (induction rs arbitrary: ks) (auto split: sum.splits)

lemma str_keys_length: "str_keys rs = Some ks \<Longrightarrow> length ks = length rs"
  by (induction rs arbitrary: ks) (auto split: json.splits option.splits)

lemma sort_results_set:
  assumes "sort_results f rs = Inr out"
  shows "set out = set rs"
proof (cases "int_keys f rs")
  case (Inr ks)
  with assms have "out = map snd (sort_key fst (zip ks rs))"
    by (simp add: sort_results_def)
  then show ?thesis
    using set_sorted_zip[OF int_keys_length[OF Inr]] by simp
next
  case (Inl e)
  show ?thesis
  proof (cases "str_keys rs")
    case None
    with Inl assms show ?thesis
      by (auto simp: sort_results_def split: py_error.splits if_splits)
  next
    case (Some ss)
    with Inl assms have "out = map snd (sort_key fst (zip ss rs))"
      by (auto simp: sort_results_def split: py_error.splits)
    then show ?thesis
      using set_sorted_zip[OF str_keys_length[OF Some]] by simp
  qed
qed

text \<open>
  C9. Every row of the report has prediction 1 when its verdict is "supported" and
  prediction 0 when its verdict is "contradicted" or "undetermined".
\<close>

theorem aggregator_prediction_mapping:
  assumes "aggregator_main int_of_str claims verdict_files = Some (Inr report)"
    and "row \<in> set report"
  shows "(row_verdict row = JString ''supported'' \<longrightarrow> row_prediction row = 1)
       \<and> (row_verdict row = JString ''contradicted'' \<longrightarrow> row_prediction row = 0)
       \<and> (row_verdict row = JString ''undetermined'' \<longrightarrow> row_prediction row = 0)"
proof -
  from assms(1) obtain results where
    coll: "collect_results claims verdict_files [] = Inr results"
    and srt: "sort_results int_of_str results = Inr report"
    by (auto simp: aggregator_main_def split: if_splits sum.splits)
  have "\<forall>r \<in> set results. verdict_map_get (row_verdict r) = Inr (row_prediction r)"
    using collect_results_prediction[OF coll] by simp
  moreover have "row \<in> set results"
    using sort_results_set[OF srt] assms(2) by simp
  ultimately have "verdict_map_get (row_verdict row) = Inr (row_prediction row)"
    by blast
  then show ?thesis
    by (auto simp: verdict_map_get_def VERDICT_MAP_def)
qed

theorem aggregator_prediction_mapping_witness:
  "aggregator_main sample_int_of_str Map.empty
     [sample_verdict_file ''3'' ''undetermined'', sample_verdict_file ''1'' ''supported'',
      sample_verdict_file ''2'' ''contradicted'']
   = Some (Inr [sample_row ''1'' ''supported'' 1, sample_row ''2'' ''contradicted'' 0,
                sample_row ''3'' ''undetermined'' 0])
   \<and> row_prediction (sample_row ''1'' ''supported'' 1) = 1
   \<and> row_prediction (sample_row ''2'' ''contradicted'' 0) = 0
   \<and> row_prediction (sample_row ''3'' ''undetermined'' 0) = 0"
proof -
  let ?report = "[sample_row ''1'' ''supported'' 1, sample_row ''2'' ''contradicted'' 0,
                  sample_row ''3'' ''undetermined'' 0]"
  have run: "aggregator_main sample_int_of_str Map.empty
     [sample_verdict_file ''3'' ''undetermined'', sample_verdict_file ''1'' ''supported'',
      sample_verdict_file ''2'' ''contradicted''] = Some (Inr ?report)"
    by (simp add: aggregator_main_def build_row_def hashable_def verdict_map_get_def
        VERDICT_MAP_def concise_rationale_def dict_get_def sort_results_def py_int_def
        sample_verdict_file_def sample_row_def sample_int_of_str_def)
  have m1: "sample_row ''1'' ''supported'' 1 \<in> set ?report" by simp
  have m2: "sample_row ''2'' ''contradicted'' 0 \<in> set ?report" by simp
  have m3: "sample_row ''3'' ''undetermined'' 0 \<in> set ?report" by simp
  have v1: "row_verdict (sample_row ''1'' ''supported'' 1) = JString ''supported''"
    by (simp add: sample_row_def)
  have v2: "row_verdict (sample_row ''2'' ''contradicted'' 0) = JString ''contradicted''"
    by (simp add: sample_row_def)
  have v3: "row_verdict (sample_row ''3'' ''undetermined'' 0) = JString ''undetermined''"
    by (simp add: sample_row_def)
  show ?thesis
    using run v1 v2 v3 aggregator_prediction_mapping[OF run m1]
      aggregator_prediction_mapping[OF run m2] aggregator_prediction_mapping[OF run m3]
    by simp
qed

section \<open>Verdict Resolver: what a resolved record holds\<close>

lemma map_of_dict_set: "map_of (dict_set k v d) = (map_of d)(k \<mapsto> v)"
  by (induction d) (auto simp: fun_eq_iff)

lemma fst_set_dict_set: "fst ` set (dict_set k v d) = insert k (fst ` set d)"
proof -
  have "dom (map_of (dict_set k v d)) = insert k (dom (map_of d))"
    by (simp add: map_of_dict_set)
  then show ?thesis by (simp add: dom_map_of_conv_image_fst)
qed













section \<open>Verdict Resolver: replies that do not parse, replies with absent fields\<close>






text \<open>
  C8 on the two resolvers. A reply that parses but has only the verdict field: the local
  resolver fills in the four absent fields, the hosted resolver returns the record
  without them.
\<close>

theorem hosted_resolver_no_backfill:
  "fst (call_claude_with_retry (constant_client reply_bare) sample_loads (sample_claim ''1''))
     = JObject [(''verdict'', JString ''supported''), (''claim_id'', JString ''1'')]
   \<and> field (fst (call_claude_with_retry (constant_client reply_bare) sample_loads (sample_claim ''1'')))
        ''confidence'' = None
   \<and> field (fst (call_claude_with_retry (constant_client reply_bare) sample_loads (sample_claim ''1'')))
        ''reasoning'' = None
   \<and> field (fst (call_claude_with_retry (constant_client reply_bare) sample_loads (sample_claim ''1'')))
        ''supporting_spans'' = None
   \<and> field (fst (call_claude_with_retry (constant_client reply_bare) sample_loads (sample_claim ''1'')))
        ''contradicting_spans'' = None
   \<and> call_ollama (ollama_reply reply_bare) sample_loads (sample_claim ''1'')
     = JObject [(''verdict'', JString ''supported''), (''claim_id'', JString ''1''),
                (''supporting_spans'', JArray []), (''contradicting_spans'', JArray []),
                (''confidence'', JFloat (Finite (1 / 2))),
                (''reasoning'', JString ''Local model inference'')]"
  by code_simp

text \<open>The local resolver does fill in: after it, the four optional fields are always there.\<close>

lemma setdefault_keys: "fst ` set (setdefault k v d) = insert k (fst ` set d)"
  by (auto simp: setdefault_def fst_set_dict_set)

lemma backfill_keys:
  "fst ` set (backfill d)
     = {''reasoning'', ''confidence'', ''contradicting_spans'', ''supporting_spans''} \<union> fst ` set d"
  by (simp add: backfill_def setdefault_keys insert_commute)

lemma backfill_fields:
  "map_of (backfill d) ''supporting_spans'' \<noteq> None"
  "map_of (backfill d) ''contradicting_spans'' \<noteq> None"
  "map_of (backfill d) ''confidence'' \<noteq> None"
  "map_of (backfill d) ''reasoning'' \<noteq> None"
  unfolding map_of_eq_None_iff backfill_keys by blast+

section \<open>Verdict Resolver: restarting the stage\<close>

lemma save_verdict_simps:
  "verdicts (save_verdict c v st) = dict_set c v (verdicts st)"
  "calls (save_verdict c v st) = calls st"
  by (simp_all add: save_verdict_def)

lemma log_calls_simps:
  "verdicts (log_calls c k st) = verdicts st"
  "calls (log_calls c k st) = calls st @ replicate k c"
  by (simp_all add: log_calls_def)

text \<open>
  A run of the loop touches only the verdicts of the claims it is given and logs calls
  only for them.
\<close>

lemma process_remaining_frame:
  assumes "process_remaining client loads n i files st = (r, st')"
    and "c \<notin> cd_claim_id ` snd ` set files"
  shows "map_of (verdicts st') c = map_of (verdicts st) c
       \<and> (\<exists>new. calls st' = calls st @ new \<and> c \<notin> set new)"
  using assms
proof (induction files arbitrary: i st)
  case Nil
  then show ?case by simp
next
  case (Cons f files)
  obtain stem cd where f: "f = (stem, cd)" by (cases f)
  obtain verdict k where call: "call_claude_with_retry (client cd) loads cd = (verdict, k)"
    by (cases "call_claude_with_retry (client cd) loads cd")
  let ?st1 = "log_calls (cd_claim_id cd) k st"
  let ?st2 = "save_verdict (cd_claim_id cd) verdict ?st1"
  from Cons.prems(2) f have ne: "cd_claim_id cd \<noteq> c" and rest: "c \<notin> cd_claim_id ` snd ` set files"
    by auto
  have st1: "map_of (verdicts ?st1) c = map_of (verdicts st) c
       \<and> calls ?st1 = calls st @ replicate k (cd_claim_id cd) \<and> c \<notin> set (replicate k (cd_claim_id cd))"
    using ne by (auto simp: log_calls_simps)
  have st2: "map_of (verdicts ?st2) c = map_of (verdicts st) c
       \<and> calls ?st2 = calls st @ replicate k (cd_claim_id cd)"
    using ne by (simp add: save_verdict_simps log_calls_simps map_of_dict_set)
  show ?case
  proof (cases "update_stats verdict")
    case (Some e)
    with Cons.prems(1) f call have "st' = ?st1" by simp
    with st1 show ?thesis by blast
  next
    case None
    show ?thesis
    proof (cases "((i + 1) mod 10 = 0 \<or> i + 1 = n) \<and> progress_line verdict \<noteq> None")
      case True
      with Cons.prems(1) f call None have "st' = ?st2" by (simp add: Let_def)
      with st1 st2 show ?thesis by metis
    next
      case False
      with Cons.prems(1) f call None
      have "process_remaining client loads n (i + 1) files ?st2 = (r, st')"
        by (auto simp: Let_def)
      from Cons.IH[OF this rest] obtain new where
        "map_of (verdicts st') c = map_of (verdicts ?st2) c"
        "calls st' = calls ?st2 @ new" "c \<notin> set new" by blast
      with st1 st2 have "map_of (verdicts st') c = map_of (verdicts st) c"
        "calls st' = calls st @ (replicate k (cd_claim_id cd) @ new)"
        "c \<notin> set (replicate k (cd_claim_id cd) @ new)"
        by auto
      then show ?thesis by blast
    qed
  qed
qed

lemma process_remaining_local_frame:
  assumes "process_remaining_local post loads n i files st = (r, st')"
    and "c \<notin> cd_claim_id ` snd ` set files"
  shows "map_of (verdicts st') c = map_of (verdicts st) c
       \<and> (\<exists>new. calls st' = calls st @ new \<and> c \<notin> set new)"
  using assms
proof (induction files arbitrary: i st)
  case Nil
  then show ?case by simp
next
  case (Cons f files)
  obtain stem cd where f: "f = (stem, cd)" by (cases f)
  define verdict where "verdict = call_ollama (post cd) loads cd"
  let ?st1 = "log_calls (cd_claim_id cd) 1 st"
  let ?st2 = "save_verdict (cd_claim_id cd) verdict ?st1"
  from Cons.prems(2) f have ne: "cd_claim_id cd \<noteq> c" and rest: "c \<notin> cd_claim_id ` snd ` set files"
    by auto
  have st1: "map_of (verdicts ?st1) c = map_of (verdicts st) c
       \<and> calls ?st1 = calls st @ [cd_claim_id cd] \<and> c \<notin> set [cd_claim_id cd]"
    using ne by (auto simp: log_calls_simps)
  have st2: "map_of (verdicts ?st2) c = map_of (verdicts st) c
       \<and> calls ?st2 = calls st @ [cd_claim_id cd]"
    using ne by (simp add: save_verdict_simps log_calls_simps map_of_dict_set)
  show ?case
  proof (cases "update_stats_local verdict")
    case (Some e)
    with Cons.prems(1) f have "st' = ?st1" by (simp add: verdict_def Let_def)
    with st1 show ?thesis by blast
  next
    case None
    show ?thesis
    proof (cases "((i + 1) mod 5 = 0 \<or> i + 1 = n) \<and> progress_line verdict \<noteq> None")
      case True
      with Cons.prems(1) f None have "st' = ?st2" by (simp add: verdict_def Let_def)
      with st1 st2 show ?thesis by metis
    next
      case False
      with Cons.prems(1) f None
      have "process_remaining_local post loads n (i + 1) files ?st2 = (r, st')"
        by (auto simp: verdict_def Let_def)
      from Cons.IH[OF this rest] obtain new where
        "map_of (verdicts st') c = map_of (verdicts ?st2) c"
        "calls st' = calls ?st2 @ new" "c \<notin> set new" by blast
      with st1 st2 have "map_of (verdicts st') c = map_of (verdicts st) c"
        "calls st' = calls st @ ([cd_claim_id cd] @ new)"
        "c \<notin> set ([cd_claim_id cd] @ new)"
        by auto
      then show ?thesis by blast
    qed
  qed
qed

lemma nothing_remaining:
  assumes "\<forall>f \<in> set files. fst f \<in> processed"
  shows "filter (\<lambda>f. fst f \<notin> processed) files = []"
  using assms by (induction files) auto

text \<open>
  C4. When every claim of the evidence directory already has a persisted verdict (evidence
  and verdict files are both named after the claim id), a run of either resolver leaves
  the state as it was: no backend call is added to the log and no verdict file changes.
\<close>

theorem rerun_leaves_state_unchanged:
  assumes "\<forall>f \<in> set evidence_files. fst f = cd_claim_id (snd f)"
    and "\<forall>f \<in> set evidence_files. cd_claim_id (snd f) \<in> fst ` set (verdicts st)"
  shows "snd (reasoning_main api_key client loads evidence_files st) = st
       \<and> snd (local_main ollama_ok post loads evidence_files st) = st"
proof -
  from assms have "\<forall>f \<in> set evidence_files. fst f \<in> fst ` set (verdicts st)"
    by metis
  then have none: "filter (\<lambda>f. fst f \<notin> fst ` set (verdicts st)) evidence_files = []"
    by (rule nothing_remaining)
  have "snd (reasoning_main api_key client loads evidence_files st) = st"
    by (simp add: reasoning_main_def none)
  moreover have "snd (local_main ollama_ok post loads evidence_files st) = st"
    by (simp add: local_main_def none)
  ultimately show ?thesis by blast
qed

theorem rerun_leaves_state_unchanged_witness:
  "fst (''1'', sample_claim ''1'') = cd_claim_id (sample_claim ''1'')
   \<and> fst (''2'', sample_claim ''2'') = cd_claim_id (sample_claim ''2'')
   \<and> cd_claim_id (sample_claim ''1'') \<in> fst ` set (verdicts after_outage)
   \<and> cd_claim_id (sample_claim ''2'') \<in> fst ` set (verdicts after_outage)
   \<and> snd (reasoning_main True healthy_client sample_loads sample_evidence_files after_outage)
       = after_outage
   \<and> snd (local_main True healthy_post sample_loads sample_evidence_files after_outage)
       = after_outage"
proof -
  have named: "\<forall>f \<in> set sample_evidence_files. fst f = cd_claim_id (snd f)"
    by (simp add: sample_evidence_files_def sample_claim_def)
  have complete: "\<forall>f \<in> set sample_evidence_files. cd_claim_id (snd f) \<in> fst ` set (verdicts after_outage)"
    by (simp add: sample_evidence_files_def sample_claim_def after_outage_def)
  show ?thesis
    using named complete
      rerun_leaves_state_unchanged[OF named complete, of True healthy_client sample_loads True healthy_post]
    by (simp add: sample_evidence_files_def)
qed

text \<open>A run that completes has stored, for each claim it was given, what the resolver returned.\<close>

lemma process_remaining_saves:
  assumes "process_remaining client loads n i files st = (None, st')"
    and "(c, cd) \<in> set files"
    and "distinct (map fst files)"
    and "\<forall>f \<in> set files. fst f = cd_claim_id (snd f)"
  shows "map_of (verdicts st') c = Some (fst (call_claude_with_retry (client cd) loads cd))"
  using assms
proof (induction files arbitrary: i st)
  case Nil
  then show ?case by simp
next
  case (Cons f files)
  obtain stem cd0 where f: "f = (stem, cd0)" by (cases f)
  obtain verdict k where call: "call_claude_with_retry (client cd0) loads cd0 = (verdict, k)"
    by (cases "call_claude_with_retry (client cd0) loads cd0")
  let ?st2 = "save_verdict (cd_claim_id cd0) verdict (log_calls (cd_claim_id cd0) k st)"
  from Cons.prems(1) f call have stats: "update_stats verdict = None"
    by (cases "update_stats verdict") (simp_all add: Let_def)
  have quiet: "\<not> (((i + 1) mod 10 = 0 \<or> i + 1 = n) \<and> progress_line verdict \<noteq> None)"
  proof
    assume loud: "((i + 1) mod 10 = 0 \<or> i + 1 = n) \<and> progress_line verdict \<noteq> None"
    with Cons.prems(1) f call stats have "progress_line verdict = None"
      by (simp add: Let_def)
    with loud show False by simp
  qed
  with Cons.prems(1) f call stats
  have rec: "process_remaining client loads n (i + 1) files ?st2 = (None, st')"
    by (auto simp: Let_def)
  from Cons.prems(3,4) f have stem: "stem = cd_claim_id cd0" and stem_fresh: "stem \<notin> fst ` set files"
    and dist: "distinct (map fst files)" and named: "\<forall>f \<in> set files. fst f = cd_claim_id (snd f)"
    by auto
  show ?case
  proof (cases "(c, cd) = (stem, cd0)")
    case True
    have "c \<notin> cd_claim_id ` snd ` set files"
    proof
      assume "c \<in> cd_claim_id ` snd ` set files"
      then obtain g where "g \<in> set files" "c = cd_claim_id (snd g)" by auto
      with named have "c \<in> fst ` set files" by force
      with True stem_fresh show False by simp
    qed
    from process_remaining_frame[OF rec this]
    have "map_of (verdicts st') c = map_of (verdicts ?st2) c" by blast
    also have "\<dots> = Some verdict"
      using True stem by (simp add: save_verdict_simps map_of_dict_set)
    finally show ?thesis using True call by simp
  next
    case False
    with Cons.prems(2) f have "(c, cd) \<in> set files" by auto
    from Cons.IH[OF rec this dist named] show ?thesis .
  qed
qed

lemma reasoning_main_frame:
  assumes "reasoning_main api_key client loads files st = (r, st')"
    and "\<forall>f \<in> set files. fst f = cd_claim_id (snd f)"
    and "c \<in> fst ` set (verdicts st)"
  shows "map_of (verdicts st') c = map_of (verdicts st) c
       \<and> (\<exists>new. calls st' = calls st @ new \<and> c \<notin> set new)"
proof (cases "\<not> api_key \<or> files = []")
  case True
  with assms(1) have "st' = st" by (auto simp: reasoning_main_def split: if_splits)
  then show ?thesis by simp
next
  case False
  define remaining where "remaining = filter (\<lambda>f. fst f \<notin> fst ` set (verdicts st)) files"
  obtain r0 st0 where loop: "process_remaining client loads (length remaining) 0 remaining st = (r0, st0)"
    by (cases "process_remaining client loads (length remaining) 0 remaining st")
  with assms(1) False have "st' = st0"
    by (auto simp: reasoning_main_def remaining_def Let_def split: option.splits)
  moreover have "c \<notin> cd_claim_id ` snd ` set remaining"
  proof
    assume "c \<in> cd_claim_id ` snd ` set remaining"
    then obtain g where g: "g \<in> set remaining" "c = cd_claim_id (snd g)" by auto
    then have "g \<in> set files" "fst g \<notin> fst ` set (verdicts st)"
      by (auto simp: remaining_def)
    with assms(2) g(2) have "c \<notin> fst ` set (verdicts st)" by metis
    with assms(3) show False by simp
  qed
  ultimately show ?thesis
    using process_remaining_frame[OF loop] by simp
qed

text \<open>
  C10. Error verdicts go to the same store as the others, and stay. If a run that
  completes meets a claim without a stored verdict and the resolver degrades it to an
  error verdict, that error verdict is in the store after the run; and whatever a later
  run is given (any backend, any evidence files named after their claim ids), that run
  issues no backend call for the claim and leaves its error verdict as it is.
\<close>

theorem error_verdict_is_permanent:
  assumes "\<forall>f \<in> set files1. fst f = cd_claim_id (snd f)"
    and "distinct (map fst files1)"
    and "(c, cd) \<in> set files1"
    and "c \<notin> fst ` set (verdicts st0)"
    and "reasoning_main True client1 loads1 files1 st0 = (None, st1)"
    and "fst (call_claude_with_retry (client1 cd) loads1 cd) = create_error_verdict c msg"
    and "\<forall>f \<in> set files2. fst f = cd_claim_id (snd f)"
    and "reasoning_main api_key client2 loads2 files2 st1 = (r2, st2)"
  shows "map_of (verdicts st1) c = Some (create_error_verdict c msg)
       \<and> map_of (verdicts st2) c = Some (create_error_verdict c msg)
       \<and> (\<exists>new. calls st2 = calls st1 @ new \<and> c \<notin> set new)"
proof -
  define remaining where "remaining = filter (\<lambda>f. fst f \<notin> fst ` set (verdicts st0)) files1"
  have nonempty: "files1 \<noteq> []" using assms(3) by auto
  obtain r0 where loop: "process_remaining client1 loads1 (length remaining) 0 remaining st0 = (r0, st1)"
    using assms(5) nonempty
    by (cases "process_remaining client1 loads1 (length remaining) 0 remaining st0")
       (auto simp: reasoning_main_def remaining_def Let_def split: option.splits)
  have "r0 = None"
    using assms(5) nonempty loop
    by (auto simp: reasoning_main_def remaining_def Let_def split: option.splits)
  with loop have complete: "process_remaining client1 loads1 (length remaining) 0 remaining st0 = (None, st1)"
    by simp
  have "(c, cd) \<in> set remaining"
    using assms(3,4) by (simp add: remaining_def)
  moreover have "distinct (map fst remaining)"
    using assms(2) by (simp add: remaining_def distinct_map_filter)
  moreover have "\<forall>f \<in> set remaining. fst f = cd_claim_id (snd f)"
    using assms(1) by (simp add: remaining_def)
  ultimately have stored: "map_of (verdicts st1) c = Some (create_error_verdict c msg)"
    using process_remaining_saves[OF complete] assms(6) by simp
  then have "c \<in> fst ` set (verdicts st1)"
    by (metis domI dom_map_of_conv_image_fst)
  from reasoning_main_frame[OF assms(8) assms(7) this] stored
  show ?thesis by simp
qed

theorem error_verdict_is_permanent_witness:
  "fst (''1'', sample_claim ''1'') = cd_claim_id (sample_claim ''1'')
   \<and> fst (''2'', sample_claim ''2'') = cd_claim_id (sample_claim ''2'')
   \<and> distinct (map fst sample_evidence_files)
   \<and> (''1'', sample_claim ''1'') \<in> set sample_evidence_files
   \<and> ''1'' \<notin> fst ` set (verdicts empty_state)
   \<and> reasoning_main True outage_client sample_loads sample_evidence_files empty_state
       = (None, after_outage)
   \<and> fst (call_claude_with_retry (outage_client (sample_claim ''1'')) sample_loads (sample_claim ''1''))
       = create_error_verdict ''1'' ''Max retries exceeded: Connection error.''
   \<and> reasoning_main True healthy_client sample_loads sample_evidence_files after_outage
       = (None, after_outage)
   \<and> map_of (verdicts after_outage) ''1''
       = Some (create_error_verdict ''1'' ''Max retries exceeded: Connection error.'')
   \<and> calls after_outage = calls after_outage @ []"
proof -
  have named: "\<forall>f \<in> set sample_evidence_files. fst f = cd_claim_id (snd f)"
    by (simp add: sample_evidence_files_def sample_claim_def)
  have dist: "distinct (map fst sample_evidence_files)"
    by (simp add: sample_evidence_files_def)
  have mem: "(''1'', sample_claim ''1'') \<in> set sample_evidence_files"
    by (simp add: sample_evidence_files_def)
  have fresh: "''1'' \<notin> fst ` set (verdicts empty_state)"
    by (simp add: empty_state_def)
  have run1: "reasoning_main True outage_client sample_loads sample_evidence_files empty_state
      = (None, after_outage)"
    by code_simp
  have failed: "fst (call_claude_with_retry (outage_client (sample_claim ''1'')) sample_loads
        (sample_claim ''1''))
      = create_error_verdict ''1'' ''Max retries exceeded: Connection error.''"
    by code_simp
  have run2: "reasoning_main True healthy_client sample_loads sample_evidence_files after_outage
      = (None, after_outage)"
    by code_simp
  show ?thesis
    using named dist mem fresh run1 failed run2
      error_verdict_is_permanent[OF named dist mem fresh run1 failed named run2]
    by (simp add: sample_evidence_files_def)
qed

section \<open>Evidence Retriever: the order of tied candidates\<close>












section \<open>Evidence Retriever: loading the index and its metadata\<close>

text \<open>
  C6, as the code has it. A missing index file is reported and the stage returns; a missing
  metadata file makes \<^verbatim>\<open>load_index_and_metadata\<close> raise; in both cases no claim has
  been processed. The number of vectors the index holds is not consulted: the stage does
  the same whatever \<^verbatim>\<open>index.ntotal\<close> is.
\<close>

theorem index_without_metadata_aborts:
  "(claims_file files \<noteq> None \<and> faiss_index_file files = None \<longrightarrow>
      retriever_main boost files
        = (Reported ''ERROR: index/faiss.index not found. Run embedding_agent.py first.'', []))
   \<and> (claims_file files \<noteq> None \<and> faiss_index_file files \<noteq> None \<and> meta_file files = None \<longrightarrow>
      retriever_main boost files = (Raised FileNotFoundError, []))
   \<and> retriever_main boost (files \<lparr> faiss_index_file := Some (index \<lparr> ntotal := n \<rparr>) \<rparr>)
       = retriever_main boost (files \<lparr> faiss_index_file := Some index \<rparr>)"
proof -
  have same: "\<And>metadata claims written.
      retrieve_all boost (index \<lparr> ntotal := n \<rparr>) metadata claims written
        = retrieve_all boost index metadata claims written"
  proof -
    fix metadata claims written
    show "retrieve_all boost (index \<lparr> ntotal := n \<rparr>) metadata claims written
        = retrieve_all boost index metadata claims written"
      by (induction claims arbitrary: written) (simp_all split: sum.splits)
  qed
  show ?thesis
    by (auto simp: retriever_main_def same split: option.splits)
qed

theorem index_without_metadata_aborts_witness:
  "claims_file files_without_index \<noteq> None \<and> faiss_index_file files_without_index = None
   \<and> retriever_main sample_boost files_without_index
       = (Reported ''ERROR: index/faiss.index not found. Run embedding_agent.py first.'', [])
   \<and> claims_file files_without_metadata \<noteq> None \<and> faiss_index_file files_without_metadata \<noteq> None
   \<and> meta_file files_without_metadata = None
   \<and> retriever_main sample_boost files_without_metadata = (Raised FileNotFoundError, [])"
proof -
  have a: "claims_file files_without_index \<noteq> None \<and> faiss_index_file files_without_index = None"
    by (simp add: files_without_index_def mismatched_files_def)
  have b: "claims_file files_without_metadata \<noteq> None \<and> faiss_index_file files_without_metadata \<noteq> None
      \<and> meta_file files_without_metadata = None"
    by (simp add: files_without_metadata_def mismatched_files_def)
  show ?thesis
    using a b index_without_metadata_aborts[of files_without_index sample_boost]
      index_without_metadata_aborts[of files_without_metadata sample_boost]
    by simp
qed

text \<open>
  C6, as stated, fails: an index that holds three vectors is loaded with four metadata
  entries, and the stage runs to its end and writes the evidence of the claim.
\<close>

theorem count_mismatch_undetected:
  "map_option ntotal (faiss_index_file mismatched_files) = Some 3
   \<and> map_option length (meta_file mismatched_files) = Some 4
   \<and> fst (retriever_main sample_boost mismatched_files) = Completed
   \<and> map fst (snd (retriever_main sample_boost mismatched_files)) = [''1'']"
  by code_simp

section \<open>Segmenter: character offsets\<close>








section \<open>Segmenter: coverage of the source\<close>

text \<open>
  C3 on the same input. The text is clean already; its three chunks are placed at
  \<open>[0, 4)\<close>, \<open>[0, 4)\<close> and \<open>[0, 2)\<close>, so the positions 4 to 7 of the text are in no
  chunk's range.
\<close>

theorem repeated_text_not_covered:
  "clean_text ''aaaaaaaa'' = ''aaaaaaaa''
   \<and> map (\<lambda>c. (char_start c, char_end c)) (the (chunk_text ''aaaaaaaa'' char_encoding 4 1))
       = [(0, 4), (0, 4), (0, 2)]
   \<and> \<not> covered (the (chunk_text ''aaaaaaaa'' char_encoding 4 1)) 4
   \<and> \<not> covers (the (chunk_text ''aaaaaaaa'' char_encoding 4 1)) ''aaaaaaaa''"
  by code_simp

text \<open>
  On a text without repetition the same windows are placed where their tokens are, and
  the text is covered.
\<close>

lemma distinct_text_covered:
  "covers (the (chunk_text ''abcdefgh'' char_encoding 4 1)) ''abcdefgh''"
  by code_simp

end
